theory Spec2Isabelle
  imports Main "HOL-Library.Sublist" "HOL-Library.AList" "HOL-Library.Multiset"
begin

section \<open>Python values and strings\<close>

text \<open>
  The module \<^verbatim>\<open>app/services/fast_lead_filter.py\<close> works on posts of type
  \<^verbatim>\<open>Dict[str, Any]\<close>. A value stored in such a dictionary is a string, an integer,
  \<^verbatim>\<open>None\<close> or a list of integers; other Python types are outside the model. A
  \<^typ>\<open>string\<close> is read as a sequence of code points below 256, so that \<^verbatim>\<open>len\<close>
  and slicing count characters as Python does.
\<close>

datatype pyval = PStr string | PInt int | PNone | PList "int list"

datatype error = AttributeError | TypeError | ExternalError

text \<open>\<^verbatim>\<open>str.lower()\<close> on code points below 256: the letters A-Z and the Latin-1
  capitals (192 to 222, except the multiplication sign 215) move up by 32.\<close>

definition lower_char :: "char \<Rightarrow> char" where
  "lower_char c =
     (let n = (of_char c :: nat)
      in if (65 \<le> n \<and> n \<le> 90) \<or> (192 \<le> n \<and> n \<le> 222 \<and> n \<noteq> 215)
         then char_of (n + 32) else c)"

definition lower :: "string \<Rightarrow> string" where
  "lower s = map lower_char s"

text \<open>The characters \<^verbatim>\<open>str.split()\<close> treats as whitespace, below 256.\<close>

definition is_space :: "char \<Rightarrow> bool" where
  "is_space c =
     (let n = (of_char c :: nat)
      in (9 \<le> n \<and> n \<le> 13) \<or> (28 \<le> n \<and> n \<le> 32) \<or> n = 133 \<or> n = 160)"

text \<open>\<^verbatim>\<open>s.split()\<close>: the maximal runs of non-whitespace characters, in order.
  The first argument is the word read so far.\<close>

fun split_from :: "string \<Rightarrow> string \<Rightarrow> string list" where
  "split_from w [] = (if w = [] then [] else [w])"
| "split_from w (c # cs) =
     (if is_space c then (if w = [] then [] else [w]) @ split_from [] cs
      else split_from (w @ [c]) cs)"

definition py_split :: "string \<Rightarrow> string list" where
  "py_split s = split_from [] s"

text \<open>\<^verbatim>\<open>sep.join(xs)\<close>.\<close>

fun py_join :: "string \<Rightarrow> string list \<Rightarrow> string" where
  "py_join sep [] = []"
| "py_join sep [x] = x"
| "py_join sep (x # y # ys) = x @ sep @ py_join sep (y # ys)"

text \<open>\<^verbatim>\<open>k in text\<close> on strings is containment as a contiguous substring:
  \<^const>\<open>sublist\<close>.\<close>

text \<open>Decimal digits of a natural number and \<^verbatim>\<open>str\<close> of an integer.\<close>

fun digits :: "nat \<Rightarrow> string" where
  "digits n = (if n < 10 then [char_of (48 + n)] else digits (n div 10) @ [char_of (48 + n mod 10)])"

definition str_int :: "int \<Rightarrow> string" where
  "str_int i = (if i < 0 then ''-'' @ digits (nat (- i)) else digits (nat i))"

text \<open>\<^verbatim>\<open>str(v)\<close>, which an f-string applies to the value of \<^verbatim>\<open>{v}\<close>.\<close>

fun py_str :: "pyval \<Rightarrow> string" where
  "py_str (PStr s) = s"
| "py_str (PInt i) = str_int i"
| "py_str PNone = ''None''"
| "py_str (PList xs) = ''['' @ py_join '', '' (map str_int xs) @ '']''"

text \<open>\<^verbatim>\<open>v.lower()\<close>: only a string has the method.\<close>

fun py_lower :: "pyval \<Rightarrow> error + string" where
  "py_lower (PStr s) = Inr (lower s)"
| "py_lower v = Inl AttributeError"

text \<open>\<^verbatim>\<open>len(v)\<close> and \<^verbatim>\<open>v[:n]\<close>: strings and lists have them.\<close>

fun py_len :: "pyval \<Rightarrow> error + nat" where
  "py_len (PStr s) = Inr (length s)"
| "py_len (PList xs) = Inr (length xs)"
| "py_len v = Inl TypeError"

fun py_slice :: "pyval \<Rightarrow> nat \<Rightarrow> error + pyval" where
  "py_slice (PStr s) n = Inr (PStr (take n s))"
| "py_slice (PList xs) n = Inr (PList (take n xs))"
| "py_slice v n = Inl TypeError"

text \<open>\<^verbatim>\<open>v + "..."\<close>: a string can be appended to a string only.\<close>

fun py_add_str :: "pyval \<Rightarrow> string \<Rightarrow> error + pyval" where
  "py_add_str (PStr s) t = Inr (PStr (s @ t))"
| "py_add_str v t = Inl TypeError"

section \<open>Posts\<close>

text \<open>A post is a dictionary: an association list, read with \<^verbatim>\<open>get(key, default)\<close>
  and written with \<^verbatim>\<open>post[key] = v\<close> (\<^const>\<open>AList.update\<close>: in place when the
  key is there, at the end otherwise).\<close>

type_synonym post = "(string \<times> pyval) list"

definition py_get :: "post \<Rightarrow> string \<Rightarrow> pyval \<Rightarrow> pyval" where
  "py_get d k dflt = (case map_of d k of None \<Rightarrow> dflt | Some v \<Rightarrow> v)"

section \<open>Relevance score\<close>

definition struggle_indicators :: "string list" where
  "struggle_indicators =
     [''struggling'', ''help'', [CHR ''c'', CHR ''a'', CHR ''n'', CHR 0x27, CHR ''t''],
      ''cannot'', ''can not'', ''trouble'', ''problem'', ''issue'',
      ''stuck'', ''frustrated'', ''overwhelmed'', ''desperate'', ''urgent'', ''failing'', ''lost'',
      ''losing'', ''declining'', ''first client'', ''first customer'', ''no customers'',
      ''no clients'', ''getting clients'', ''customer acquisition'', ''lead generation'',
      ''need help'', ''looking for'', ''how to'', ''what should'', ''any advice'']"

text \<open>Lines 120 to 142 of \<^verbatim>\<open>_rule_based_filter\<close>: the four passes over the search
  text, each a loop that adds a fixed weight for every element found.\<close>

definition calc_score :: "string list \<Rightarrow> string list \<Rightarrow> string \<Rightarrow> string \<Rightarrow> int" where
  "calc_score all_keywords enhanced_keywords problem_description text =
     (let score = 0;
          score = fold (\<lambda>keyword s. if sublist (lower keyword) text then s + 3 else s)
                    all_keywords score;
          score = fold (\<lambda>indicator s. if sublist indicator text then s + 2 else s)
                    struggle_indicators score;
          score = fold (\<lambda>keyword s. if sublist (lower keyword) text then s + 4 else s)
                    enhanced_keywords score;
          problem_words = py_split (lower problem_description);
          score = fold (\<lambda>word s. if length word > 3 \<and> sublist word text then s + 1 else s)
                    problem_words score
      in score)"

text \<open>Lines 116 to 118: title and content are read with the default \<^verbatim>\<open>""\<close> and
  lowercased, which raises on a value that is not a string; the search text joins them
  with one space.\<close>

definition search_text :: "post \<Rightarrow> error + string" where
  "search_text post =
     (case py_lower (py_get post ''title'' (PStr [])) of
        Inl e \<Rightarrow> Inl e
      | Inr title \<Rightarrow>
         (case py_lower (py_get post ''content'' (PStr [])) of
            Inl e \<Rightarrow> Inl e
          | Inr content \<Rightarrow> Inr (title @ '' '' @ content)))"

text \<open>Lines 116 to 142 for one post.\<close>

definition score_post :: "string list \<Rightarrow> string list \<Rightarrow> string \<Rightarrow> post \<Rightarrow> error + int" where
  "score_post all_keywords enhanced_keywords problem_description post =
     (case search_text post of
        Inl e \<Rightarrow> Inl e
      | Inr text \<Rightarrow> Inr (calc_score all_keywords enhanced_keywords problem_description text))"

section \<open>The rule-based filter\<close>

text \<open>
  What the module imports and does not define is a parameter of the model: the threshold
  \<^verbatim>\<open>ai_config["threshold"]\<close>, the table \<^verbatim>\<open>INDUSTRY_MAPPINGS\<close> (read only),
  the call \<^verbatim>\<open>ai_enhancer.enhance_query(...).keywords\<close>, which may raise, and whether
  the constructor of \<^verbatim>\<open>Lead\<close> accepts its arguments. A mapping table sends a
  category to the list under its \<^verbatim>\<open>"keywords"\<close> entry; a category that is missing,
  or has no such entry, is \<^const>\<open>None\<close>.
\<close>

type_synonym mappings = "string \<rightharpoonup> string list"

text \<open>\<^verbatim>\<open>post["relevance_score"] = score\<close>.\<close>

definition set_relevance :: "post \<Rightarrow> int \<Rightarrow> post" where
  "set_relevance post score = AList.update ''relevance_score'' (PInt score) post"

text \<open>\<^verbatim>\<open>x.get("relevance_score", 0)\<close>, the sort key. Every post the filter sorts
  has just been given an integer there.\<close>

definition relevance_score :: "post \<Rightarrow> int" where
  "relevance_score post =
     (case py_get post ''relevance_score'' (PInt 0) of PInt n \<Rightarrow> n | v \<Rightarrow> 0)"

text \<open>Lines 112 and 113: the f-string slices the title of each of the first five posts.\<close>

definition log_first_posts :: "post list \<Rightarrow> error + unit" where
  "log_first_posts posts =
     (if list_all (\<lambda>post. \<not> isl (py_slice (py_get post ''title'' (PStr [])) 50)) (take 5 posts)
      then Inr () else Inl TypeError)"

text \<open>
  The loop of lines 115 to 149. The posts are objects that the loop writes to, so it
  returns them as they are afterwards: \<open>seen\<close> holds the posts already scored,
  \<open>filtered_posts\<close> the list the source appends to. A post that raises stops the loop
  with the posts before it already written.
\<close>

fun score_loop ::
  "int \<Rightarrow> string list \<Rightarrow> string list \<Rightarrow> string \<Rightarrow> post list \<Rightarrow> post list \<Rightarrow> post list
     \<Rightarrow> post list \<times> (error + post list)" where
  "score_loop thr all_keywords enhanced_keywords problem_description [] seen filtered_posts =
     (seen, Inr filtered_posts)"
| "score_loop thr all_keywords enhanced_keywords problem_description (post # rest) seen
     filtered_posts =
     (case score_post all_keywords enhanced_keywords problem_description post of
        Inl e \<Rightarrow> (seen @ post # rest, Inl e)
      | Inr score \<Rightarrow>
          (let post' = set_relevance post score
           in score_loop thr all_keywords enhanced_keywords problem_description rest
                (seen @ [post'])
                (if score \<ge> thr then filtered_posts @ [post'] else filtered_posts)))"

text \<open>\<^verbatim>\<open>filtered_posts.sort(key=..., reverse=True)\<close>: Python's sort is stable, also
  with \<^verbatim>\<open>reverse=True\<close>; so is \<^const>\<open>sort_key\<close>, here on the negated key.\<close>

definition sort_by_relevance :: "post list \<Rightarrow> post list" where
  "sort_by_relevance filtered_posts = sort_key (\<lambda>x. - relevance_score x) filtered_posts"

text \<open>Lines 85 to 88. \<^verbatim>\<open>business_keywords\<close> is the very list stored in
  \<^verbatim>\<open>BUSINESS_MAPPINGS\<close> when the business type has one, and a fresh empty list
  otherwise; \<^verbatim>\<open>extend\<close> writes to that list. The result is the table afterwards
  and the local list. \<^verbatim>\<open>if industry_type:\<close> is false for \<^verbatim>\<open>None\<close> and for
  \<^verbatim>\<open>""\<close>. The lists of the two tables are taken to be distinct objects.\<close>

definition get_business_keywords ::
  "mappings \<Rightarrow> mappings \<Rightarrow> string \<Rightarrow> string option \<Rightarrow> mappings \<times> string list" where
  "get_business_keywords BUSINESS_MAPPINGS INDUSTRY_MAPPINGS business_type industry_type =
     (let business_keywords = (case BUSINESS_MAPPINGS business_type of None \<Rightarrow> [] | Some ks \<Rightarrow> ks)
      in if industry_type \<noteq> None \<and> industry_type \<noteq> Some []
         then
           (let industry_keywords =
                  (case INDUSTRY_MAPPINGS (the industry_type) of None \<Rightarrow> [] | Some ks \<Rightarrow> ks)
            in (case BUSINESS_MAPPINGS business_type of
                  None \<Rightarrow> (BUSINESS_MAPPINGS, business_keywords @ industry_keywords)
                | Some ks \<Rightarrow>
                    (BUSINESS_MAPPINGS(business_type \<mapsto> business_keywords @ industry_keywords),
                     business_keywords @ industry_keywords)))
         else (BUSINESS_MAPPINGS, business_keywords))"

text \<open>Modelled from the spec: the class \<^verbatim>\<open>Lead\<close> (\<^verbatim>\<open>app/models/lead.py\<close>) is
  not part of the sources. It is a record of the thirteen fields the constructor call of
  lines 172 to 186 names, holding the values it is given; \<^verbatim>\<open>ai_summary\<close> is
  assigned later.\<close>

record lead =
  title :: pyval
  subreddit :: pyval
  snippet :: pyval
  permalink :: pyval
  author :: pyval
  created_utc :: pyval
  score :: pyval
  matched_keywords :: "string list"
  ai_relevance_score :: pyval
  urgency_level :: string
  business_context :: string
  problem_category :: string
  ai_summary :: string

record env =
  threshold :: int
  INDUSTRY_MAPPINGS :: mappings
  enhance_query :: "string \<Rightarrow> string \<Rightarrow> error + string list"
  lead_valid :: "lead \<Rightarrow> bool"

text \<open>\<^verbatim>\<open>_rule_based_filter\<close>. It returns the table \<^verbatim>\<open>BUSINESS_MAPPINGS\<close> and the
  posts as the call leaves them, and the sorted list or the exception raised.\<close>

definition rule_based_filter ::
  "env \<Rightarrow> mappings \<Rightarrow> post list \<Rightarrow> string \<Rightarrow> string \<Rightarrow> string option
     \<Rightarrow> mappings \<times> post list \<times> (error + post list)" where
  "rule_based_filter E BUSINESS_MAPPINGS posts problem_description business_type industry_type =
     (let (BUSINESS_MAPPINGS', business_keywords) =
            get_business_keywords BUSINESS_MAPPINGS (INDUSTRY_MAPPINGS E) business_type
              industry_type
      in case enhance_query E problem_description business_type of
           Inl e \<Rightarrow> (BUSINESS_MAPPINGS', posts, Inl e)
         | Inr enhanced_keywords \<Rightarrow>
             (let all_keywords = business_keywords @ enhanced_keywords
              in case log_first_posts posts of
                   Inl e \<Rightarrow> (BUSINESS_MAPPINGS', posts, Inl e)
                 | Inr u \<Rightarrow>
                     (case score_loop (threshold E) all_keywords enhanced_keywords
                             problem_description posts [] [] of
                        (posts', Inl e) \<Rightarrow> (BUSINESS_MAPPINGS', posts', Inl e)
                      | (posts', Inr filtered_posts) \<Rightarrow>
                          (BUSINESS_MAPPINGS', posts', Inr (sort_by_relevance filtered_posts)))))"

section \<open>Leads\<close>

text \<open>The body of the loop of \<^verbatim>\<open>_create_leads_from_posts\<close> (lines 172 to 186). The
  snippet is \<^verbatim>\<open>(c[:200] + "...") if len(c) > 200 else c\<close> for the content
  \<open>c\<close>; whatever raises there, or in the constructor, is caught per post.\<close>

definition make_snippet :: "pyval \<Rightarrow> error + pyval" where
  "make_snippet c =
     (case py_len c of
        Inl e \<Rightarrow> Inl e
      | Inr n \<Rightarrow>
          if n > 200
          then (case py_slice c 200 of Inl e \<Rightarrow> Inl e | Inr c' \<Rightarrow> py_add_str c' ''...'')
          else Inr c)"

definition create_lead :: "env \<Rightarrow> post \<Rightarrow> string \<Rightarrow> error + lead" where
  "create_lead E post business_type =
     (case make_snippet (py_get post ''content'' (PStr [])) of
        Inl e \<Rightarrow> Inl e
      | Inr snip \<Rightarrow>
          (let l = \<lparr> title = py_get post ''title'' (PStr []),
                     subreddit = py_get post ''subreddit'' (PStr []),
                     snippet = snip,
                     permalink = py_get post ''permalink'' (PStr []),
                     author = py_get post ''author'' (PStr []),
                     created_utc = py_get post ''created_utc'' (PInt 0),
                     score = py_get post ''score'' (PInt 0),
                     matched_keywords = [],
                     ai_relevance_score = py_get post ''relevance_score'' (PInt 0),
                     urgency_level = ''Medium'',
                     business_context = business_type,
                     problem_category = ''General'',
                     ai_summary = [] \<rparr>
           in if lead_valid E l then Inr l else Inl ExternalError))"

fun create_leads_loop :: "env \<Rightarrow> string \<Rightarrow> post list \<Rightarrow> lead list \<Rightarrow> lead list" where
  "create_leads_loop E business_type [] leads = leads"
| "create_leads_loop E business_type (post # rest) leads =
     create_leads_loop E business_type rest
       (case create_lead E post business_type of
          Inl e \<Rightarrow> leads
        | Inr l \<Rightarrow> leads @ [l])"

definition create_leads_from_posts :: "env \<Rightarrow> post list \<Rightarrow> string \<Rightarrow> string \<Rightarrow> lead list" where
  "create_leads_from_posts E posts problem_description business_type =
     create_leads_loop E business_type posts []"

section \<open>Summaries\<close>

text \<open>\<^verbatim>\<open>filter_posts\<close> calls \<^verbatim>\<open>_add_simple_summaries\<close> only; the method
  \<^verbatim>\<open>_add_openai_summaries\<close> is called nowhere and is left out.\<close>

text \<open>Lines 240 to 249 for one lead.\<close>

definition simple_summary :: "lead \<Rightarrow> string \<Rightarrow> error + string" where
  "simple_summary l problem_description =
     (case py_lower (title l) of
        Inl e \<Rightarrow> Inl e
      | Inr t \<Rightarrow>
          (let title_words = py_split t;
               problem_words = py_split (lower problem_description);
               matching_words = filter (\<lambda>word. word \<in> set title_words) problem_words
           in case py_slice (title l) 80 of
                Inl e \<Rightarrow> Inl e
              | Inr t80 \<Rightarrow>
                  Inr (if matching_words \<noteq> []
                       then ''Post about '' @ py_join '', '' matching_words @ '' - ''
                              @ py_str t80 @ ''...''
                       else ''Post about '' @ lower problem_description @ '' - ''
                              @ py_str t80 @ ''...'')))"

text \<open>Line 260 for one lead.\<close>

definition fallback_summary :: "lead \<Rightarrow> string \<Rightarrow> error + string" where
  "fallback_summary l problem_description =
     (case py_slice (title l) 100 of
        Inl e \<Rightarrow> Inl e
      | Inr t100 \<Rightarrow>
          Inr (''Post about '' @ lower problem_description @ '' - '' @ py_str t100 @ ''...''))"

text \<open>A loop that assigns \<^verbatim>\<open>lead.ai_summary\<close> for each lead in turn. The leads are
  objects: the loop returns them as it leaves them, and the exception that stopped it,
  if any.\<close>

fun summary_loop ::
  "(lead \<Rightarrow> string \<Rightarrow> error + string) \<Rightarrow> string \<Rightarrow> lead list \<Rightarrow> lead list
     \<Rightarrow> lead list \<times> error option" where
  "summary_loop f problem_description [] seen = (seen, None)"
| "summary_loop f problem_description (l # rest) seen =
     (case f l problem_description of
        Inl e \<Rightarrow> (seen @ l # rest, Some e)
      | Inr summary \<Rightarrow>
          summary_loop f problem_description rest (seen @ [l\<lparr>ai_summary := summary\<rparr>]))"

text \<open>\<^verbatim>\<open>_add_simple_summaries\<close>: the loop of the \<^verbatim>\<open>try\<close> block, and on an
  exception the loop of the handler over the same leads. An exception in the handler
  leaves the method.\<close>

definition add_simple_summaries :: "lead list \<Rightarrow> string \<Rightarrow> error + lead list" where
  "add_simple_summaries leads problem_description =
     (case summary_loop simple_summary problem_description leads [] of
        (leads', None) \<Rightarrow> Inr leads'
      | (leads', Some e) \<Rightarrow>
          (case summary_loop fallback_summary problem_description leads' [] of
             (leads'', None) \<Rightarrow> Inr leads''
           | (leads'', Some e') \<Rightarrow> Inl e'))"

section \<open>The pipeline\<close>

text \<open>The metrics are a dictionary with integer, float and string values.\<close>

datatype mval = MInt int | MFloat int | MStr string

type_synonym metrics = "(string \<times> mval) list"

text \<open>The dictionary of lines 42 to 50; the float \<^verbatim>\<open>0.0\<close> is \<open>MFloat 0\<close>.\<close>

definition initial_metrics :: "nat \<Rightarrow> metrics" where
  "initial_metrics n =
     [(''posts_analyzed'', MInt (int n)), (''posts_filtered'', MInt 0),
      (''summaries_generated'', MInt 0), (''tokens_used'', MInt 0), (''cost'', MFloat 0),
      (''filter_method'', MStr ''rule_based''), (''summary_method'', MStr ''openai'')]"

text \<open>The state that outlives a call: the slot \<^verbatim>\<open>self._last_metrics\<close> and the
  module-level table \<^verbatim>\<open>BUSINESS_MAPPINGS\<close>.\<close>

record filter_state =
  last_metrics :: "metrics option"
  BUSINESS_MAPPINGS :: mappings

text \<open>\<^verbatim>\<open>self._last_metrics or {}\<close>.\<close>

definition metrics_or_empty :: "metrics option \<Rightarrow> metrics" where
  "metrics_or_empty m = (case m of None \<Rightarrow> [] | Some d \<Rightarrow> if d = [] then [] else d)"

text \<open>\<^verbatim>\<open>filter_posts\<close>. The result is the state and the posts as the call leaves
  them, and the pair the method returns. Every exception of the \<^verbatim>\<open>try\<close> block
  ends in the handler of lines 74 to 77.\<close>

definition filter_posts ::
  "env \<Rightarrow> filter_state \<Rightarrow> post list \<Rightarrow> string \<Rightarrow> string \<Rightarrow> string option
     \<Rightarrow> filter_state \<times> post list \<times> (lead list \<times> metrics)" where
  "filter_posts E st posts problem_description business_type industry_type =
     (let m0 = initial_metrics (length posts);
          (bm', posts', r) =
             rule_based_filter E (BUSINESS_MAPPINGS st) posts problem_description business_type
               industry_type;
          st1 = \<lparr> last_metrics = Some m0, BUSINESS_MAPPINGS = bm' \<rparr>
      in case r of
           Inl e \<Rightarrow> (st1, posts', ([], metrics_or_empty (last_metrics st1)))
         | Inr filtered_posts \<Rightarrow>
             (let leads = create_leads_from_posts E filtered_posts problem_description
                            business_type
              in case (if leads \<noteq> [] then add_simple_summaries leads problem_description
                       else Inr leads) of
                   Inl e \<Rightarrow> (st1, posts', ([], metrics_or_empty (last_metrics st1)))
                 | Inr leads' \<Rightarrow>
                     (let m1 = AList.update ''results_returned'' (MInt (int (length leads')))
                                 (AList.update ''posts_filtered''
                                    (MInt (int (length filtered_posts))) m0)
                      in (st1\<lparr>last_metrics := Some m1\<rparr>, posts', (leads', m1)))))"

text \<open>\<^verbatim>\<open>get_last_metrics\<close>.\<close>

definition get_last_metrics :: "filter_state \<Rightarrow> metrics option" where
  "get_last_metrics st = last_metrics st"

section \<open>Example inputs\<close>

text \<open>The example of the threshold filter: threshold 5 and five posts that score
  2, 8, 5, 5 and 1 with the business keywords \<^verbatim>\<open>software\<close> and \<^verbatim>\<open>client\<close>, no
  enhanced keywords and the problem description \<^verbatim>\<open>marketing\<close>.\<close>

definition example_env :: env where
  "example_env = \<lparr>threshold = 5, INDUSTRY_MAPPINGS = Map.empty,
     enhance_query = (\<lambda>pd bt. Inr []), lead_valid = (\<lambda>l. True)\<rparr>"

definition example_mappings :: mappings where
  "example_mappings = [''saas'' \<mapsto> [''software'', ''client'']]"

definition example_posts :: "post list" where
  "example_posts =
     [[(''title'', PStr ''Help'')],
      [(''title'', PStr ''Software client stuck'')],
      [(''title'', PStr ''Software issue''), (''content'', PStr ''a'')],
      [(''title'', PStr ''Client problem''), (''content'', PStr ''b'')],
      [(''title'', PStr ''Marketing'')]]"

definition example_scored :: "post list" where
  "example_scored =
     [[(''title'', PStr ''Help''), (''relevance_score'', PInt 2)],
      [(''title'', PStr ''Software client stuck''), (''relevance_score'', PInt 8)],
      [(''title'', PStr ''Software issue''), (''content'', PStr ''a''),
       (''relevance_score'', PInt 5)],
      [(''title'', PStr ''Client problem''), (''content'', PStr ''b''),
       (''relevance_score'', PInt 5)],
      [(''title'', PStr ''Marketing''), (''relevance_score'', PInt 1)]]"

definition example_output :: "post list" where
  "example_output =
     [[(''title'', PStr ''Software client stuck''), (''relevance_score'', PInt 8)],
      [(''title'', PStr ''Software issue''), (''content'', PStr ''a''),
       (''relevance_score'', PInt 5)],
      [(''title'', PStr ''Client problem''), (''content'', PStr ''b''),
       (''relevance_score'', PInt 5)]]"

text \<open>An enhancer that returns the empty string as its only keyword, with threshold 3.\<close>

definition empty_keyword_env :: env where
  "empty_keyword_env = \<lparr>threshold = 3, INDUSTRY_MAPPINGS = Map.empty,
     enhance_query = (\<lambda>pd bt. Inr [[]]), lead_valid = (\<lambda>l. True)\<rparr>"

text \<open>A post whose content has five characters, and the lead built from it.\<close>

definition example_short_post :: post where
  "example_short_post = [(''title'', PStr ''Hi''), (''content'', PStr ''short'')]"

definition example_short_lead :: lead where
  "example_short_lead =
     \<lparr>title = PStr ''Hi'', subreddit = PStr [],
        snippet = PStr ''short'', permalink = PStr [],
        author = PStr [], created_utc = PInt 0, score = PInt 0, matched_keywords = [],
        ai_relevance_score = PInt 0, urgency_level = ''Medium'', business_context = ''saas'',
        problem_category = ''General'', ai_summary = []\<rparr>"

text \<open>A post whose content has 201 characters, and the lead built from it.\<close>

definition example_long_post :: post where
  "example_long_post = [(''content'', PStr (replicate 201 (CHR ''a'')))]"

definition example_long_lead :: lead where
  "example_long_lead =
     \<lparr>title = PStr [], subreddit = PStr [],
        snippet = PStr (replicate 200 (CHR ''a'') @ ''...''), permalink = PStr [],
        author = PStr [], created_utc = PInt 0, score = PInt 0, matched_keywords = [],
        ai_relevance_score = PInt 0, urgency_level = ''Medium'', business_context = ''saas'',
        problem_category = ''General'', ai_summary = []\<rparr>"

text \<open>The example of the summary: the title \<^verbatim>\<open>How do I get my first client\<close>,
  for the problem description \<^verbatim>\<open>getting first client fast\<close>.\<close>

definition example_client_posts :: "post list" where
  "example_client_posts = [[(''title'', PStr ''How do I get my first client'')]]"

text \<open>An enhancer that raises, and a state whose metrics slot is still empty.\<close>

definition failing_env :: env where
  "failing_env = \<lparr>threshold = 5, INDUSTRY_MAPPINGS = Map.empty,
     enhance_query = (\<lambda>pd bt. Inl ExternalError), lead_valid = (\<lambda>l. True)\<rparr>"

definition initial_state :: filter_state where
  "initial_state = \<lparr>last_metrics = None, BUSINESS_MAPPINGS = example_mappings\<rparr>"

text \<open>Two successive calls with the same arguments: one business keyword, one industry
  keyword, one post that mentions the industry keyword, threshold 5. The second call
  starts in the state, and with the posts, that the first one leaves.\<close>

definition repeat_env :: env where
  "repeat_env = \<lparr>threshold = 5, INDUSTRY_MAPPINGS = [''tech'' \<mapsto> [''startup'']],
     enhance_query = (\<lambda>pd bt. Inr []), lead_valid = (\<lambda>l. True)\<rparr>"

definition repeat_state :: filter_state where
  "repeat_state = \<lparr>last_metrics = None, BUSINESS_MAPPINGS = [''saas'' \<mapsto> [''software'']]\<rparr>"

definition repeat_posts :: "post list" where
  "repeat_posts = [[(''title'', PStr ''My startup'')]]"

definition first_run :: "filter_state \<times> post list \<times> (lead list \<times> metrics)" where
  "first_run = filter_posts repeat_env repeat_state repeat_posts ''x'' ''saas'' (Some ''tech'')"

definition second_run :: "filter_state \<times> post list \<times> (lead list \<times> metrics)" where
  "second_run =
     filter_posts repeat_env (fst first_run) (fst (snd first_run)) ''x'' ''saas'' (Some ''tech'')"

section \<open>Properties of the score\<close>

lemma fold_hits:
  "fold (\<lambda>k s. if P k then s + w else s) xs (s0::int) = s0 + w * int (length (filter P xs))"
  by (induction xs arbitrary: s0) (simp_all add: algebra_simps)

text \<open>The score counts hits: three per keyword of the combined list, two per indicator,
  four per enhanced keyword, one per long word of the problem description.\<close>

lemma calc_score_count:
  "calc_score all_keywords enhanced_keywords pd text =
     3 * int (length (filter (\<lambda>k. sublist (lower k) text) all_keywords))
   + 2 * int (length (filter (\<lambda>i. sublist i text) struggle_indicators))
   + 4 * int (length (filter (\<lambda>k. sublist (lower k) text) enhanced_keywords))
   + int (length (filter (\<lambda>w. length w > 3 \<and> sublist w text) (py_split (lower pd))))"
  unfolding calc_score_def Let_def
  by (simp add: fold_hits fold_hits [where w = 1, simplified])

lemma lower_Nil: "lower [] = []"
  by (simp add: lower_def)

lemma calc_score_empty_keyword:
  assumes "[] \<in> set all_keywords"
  shows "3 \<le> calc_score all_keywords enhanced_keywords pd text"
proof -
  have "filter (\<lambda>k. sublist (lower k) text) all_keywords \<noteq> []"
    using assms by (auto simp: filter_empty_conv lower_Nil intro!: bexI [of _ "[]"])
  then have "1 \<le> length (filter (\<lambda>k. sublist (lower k) text) all_keywords)"
    by (cases "filter (\<lambda>k. sublist (lower k) text) all_keywords") simp_all
  then show ?thesis by (simp add: calc_score_count)
qed

lemma score_post_text:
  "search_text post = Inr tx \<Longrightarrow> score_post a e pd post = Inr (calc_score a e pd tx)"
  by (simp add: score_post_def)

section \<open>Properties of the scoring loop\<close>

lemma relevance_score_set: "relevance_score (set_relevance p sc) = sc"
  by (simp add: relevance_score_def set_relevance_def py_get_def update_conv')

text \<open>When the loop ends normally, every post has been given its score, and the posts
  kept are those at or above the threshold, in the order of the input.\<close>

lemma score_loop_Inr:
  "score_loop thr a e pd posts seen filt = (posts', Inr out) \<Longrightarrow>
     \<exists>scored. posts' = seen @ scored
       \<and> out = filt @ filter (\<lambda>d. thr \<le> relevance_score d) scored
       \<and> list_all2 (\<lambda>p d. \<exists>sc. score_post a e pd p = Inr sc \<and> d = set_relevance p sc)
            posts scored"
proof (induction posts arbitrary: seen filt)
  case Nil
  then show ?case by simp
next
  case (Cons p ps)
  from Cons.prems obtain sc where sc: "score_post a e pd p = Inr sc"
    by (cases "score_post a e pd p") simp_all
  let ?p = "set_relevance p sc"
  from Cons.prems sc have
    "score_loop thr a e pd ps (seen @ [?p]) (if thr \<le> sc then filt @ [?p] else filt)
       = (posts', Inr out)"
    by (simp add: Let_def)
  from Cons.IH [OF this] obtain scored where
    s: "posts' = (seen @ [?p]) @ scored"
       "out = (if thr \<le> sc then filt @ [?p] else filt)
                @ filter (\<lambda>d. thr \<le> relevance_score d) scored"
       "list_all2 (\<lambda>p d. \<exists>sc. score_post a e pd p = Inr sc \<and> d = set_relevance p sc)
          ps scored"
    by blast
  show ?case
    by (rule exI [of _ "?p # scored"]) (use s sc in \<open>simp add: relevance_score_set\<close>)
qed

text \<open>The loop ends normally when every title and content is a string.\<close>

lemma score_loop_total:
  "list_all (\<lambda>p. \<not> isl (search_text p)) posts \<Longrightarrow>
     \<exists>posts' out. score_loop thr a e pd posts seen filt = (posts', Inr out)"
proof (induction posts arbitrary: seen filt)
  case Nil
  then show ?case by simp
next
  case (Cons p ps)
  then obtain tx where "search_text p = Inr tx"
    by (cases "search_text p") simp_all
  then show ?case
    using Cons by (simp add: score_post_def Let_def)
qed

lemma rule_based_filter_Inr:
  assumes "rule_based_filter E bm posts pd bt it = (bm', D, Inr out)"
  shows "\<exists>ek fp. enhance_query E pd bt = Inr ek
           \<and> score_loop (threshold E)
                (snd (get_business_keywords bm (INDUSTRY_MAPPINGS E) bt it) @ ek) ek pd
                posts [] []
              = (D, Inr fp)
           \<and> out = sort_by_relevance fp
           \<and> bm' = fst (get_business_keywords bm (INDUSTRY_MAPPINGS E) bt it)"
  using assms unfolding rule_based_filter_def Let_def
  by (auto split: prod.splits sum.splits)

text \<open>\<^verbatim>\<open>_rule_based_filter\<close> returns a list whenever the enhancer returns and every
  title and content is a string.\<close>

lemma search_text_sliceable:
  assumes "\<not> isl (search_text p)"
  shows "\<not> isl (py_slice (py_get p ''title'' (PStr [])) 50)"
  using assms
  by (cases "py_get p ''title'' (PStr [])") (simp_all add: search_text_def)

lemma log_first_posts_ok:
  assumes "list_all (\<lambda>p. \<not> isl (search_text p)) posts"
  shows "log_first_posts posts = Inr ()"
proof -
  have "list_all (\<lambda>p. \<not> isl (search_text p)) (take 5 posts)"
    using assms by (auto simp: list_all_iff dest: in_set_takeD)
  then have "list_all (\<lambda>post. \<not> isl (py_slice (py_get post ''title'' (PStr [])) 50)) (take 5 posts)"
    unfolding list_all_iff using search_text_sliceable by blast
  then show ?thesis
    by (simp add: log_first_posts_def)
qed

lemma rule_based_filter_returns:
  assumes "enhance_query E pd bt = Inr ek"
      and "list_all (\<lambda>p. \<not> isl (search_text p)) posts"
  shows "\<exists>bm' D out. rule_based_filter E bm posts pd bt it = (bm', D, Inr out)"
proof -
  obtain bm1 bk where g: "get_business_keywords bm (INDUSTRY_MAPPINGS E) bt it = (bm1, bk)"
    by (cases "get_business_keywords bm (INDUSTRY_MAPPINGS E) bt it")
  from score_loop_total [OF assms(2)] obtain D fp where
    "score_loop (threshold E) (bk @ ek) ek pd posts [] [] = (D, Inr fp)"
    by blast
  then show ?thesis
    using assms(1) g log_first_posts_ok [OF assms(2)]
    by (simp add: rule_based_filter_def)
qed

lemma score_loop_all_pass:
  assumes "[] \<in> set akw" and "thr \<le> 3"
      and "score_loop thr akw ek pd posts [] [] = (posts', Inr filtered)"
  shows "filtered = posts'"
proof -
  from score_loop_Inr [OF assms(3)] obtain scored where
    s: "posts' = scored" "filtered = filter (\<lambda>d. thr \<le> relevance_score d) scored"
       "list_all2 (\<lambda>p d. \<exists>sc. score_post akw ek pd p = Inr sc \<and> d = set_relevance p sc)
          posts scored"
    by auto
  have "thr \<le> relevance_score d" if "d \<in> set scored" for d
  proof -
    from that s(3) obtain p sc where "score_post akw ek pd p = Inr sc" "d = set_relevance p sc"
      by (auto simp: list_all2_conv_all_nth in_set_conv_nth)
    moreover from this(1) have "3 \<le> sc"
      using calc_score_empty_keyword [OF assms(1)]
      by (auto simp: score_post_def split: sum.splits)
    ultimately show ?thesis
      using assms(2) by (simp add: relevance_score_set)
  qed
  then show ?thesis
    using s by simp
qed

section \<open>Claims about the score\<close>

text \<open>
  C1 (as amended). The combined list of line 95 contains the enhanced keywords, and the
  three-point pass of lines 124 to 126 runs over the combined list. For every post whose
  search text contains the lowercased keyword \<open>k\<close>, one occurrence of \<open>k\<close> in the
  enhanced keywords adds 3 points in the pass over the combined list and 4 points in
  the enhanced pass: 7 in all, not 4.
\<close>

theorem enhanced_keyword_counted_twice:
  assumes "search_text post = Inr tx" and "sublist (lower k) tx"
  shows "score_post (bk @ e1 @ e2) (e1 @ e2) pd post
           = Inr (calc_score (bk @ e1 @ e2) (e1 @ e2) pd tx)
       \<and> score_post (bk @ e1 @ k # e2) (e1 @ k # e2) pd post
           = Inr (calc_score (bk @ e1 @ e2) (e1 @ e2) pd tx + 3 + 4)"
  using assms by (simp add: score_post_text calc_score_count)

theorem enhanced_keyword_counted_twice_witness:
  "search_text [(''title'', PStr ''My Startup'')] = Inr ''my startup ''
   \<and> sublist (lower ''Startup'') ''my startup ''
   \<and> score_post ([''software''] @ [] @ []) ([] @ []) ''x'' [(''title'', PStr ''My Startup'')]
       = Inr (calc_score ([''software''] @ [] @ []) ([] @ []) ''x'' ''my startup '')
   \<and> score_post ([''software''] @ [] @ ''Startup'' # []) ([] @ ''Startup'' # []) ''x''
         [(''title'', PStr ''My Startup'')]
       = Inr (calc_score ([''software''] @ [] @ []) ([] @ []) ''x'' ''my startup '' + 3 + 4)"
proof -
  have h1: "search_text [(''title'', PStr ''My Startup'')] = Inr ''my startup ''"
    by code_simp
  have h2: "sublist (lower ''Startup'') ''my startup ''"
    by code_simp
  show ?thesis
    using h1 h2 enhanced_keyword_counted_twice [OF h1 h2, of "[''software'']" "[]" "[]" "''x''"]
    by simp
qed

text \<open>
  C1 as stated fails. With no business keywords and the enhanced keyword
  \<^verbatim>\<open>startup\<close>, the post titled \<^verbatim>\<open>Startup\<close> is given the score 7; without the
  enhanced keyword the same post is given 0. The keyword contributes 7 and not 4.
\<close>

theorem enhanced_keyword_four_counterexample:
  "snd (rule_based_filter
          \<lparr>threshold = 0, INDUSTRY_MAPPINGS = Map.empty,
             enhance_query = (\<lambda>pd bt. Inr [''startup'']), lead_valid = (\<lambda>l. True)\<rparr>
          Map.empty [[(''title'', PStr ''Startup'')]] [] ''saas'' None)
     = ([[(''title'', PStr ''Startup''), (''relevance_score'', PInt 7)]],
        Inr [[(''title'', PStr ''Startup''), (''relevance_score'', PInt 7)]])
   \<and> snd (rule_based_filter
          \<lparr>threshold = 0, INDUSTRY_MAPPINGS = Map.empty,
             enhance_query = (\<lambda>pd bt. Inr []), lead_valid = (\<lambda>l. True)\<rparr>
          Map.empty [[(''title'', PStr ''Startup'')]] [] ''saas'' None)
     = ([[(''title'', PStr ''Startup''), (''relevance_score'', PInt 0)]],
        Inr [[(''title'', PStr ''Startup''), (''relevance_score'', PInt 0)]])
   \<and> (7::int) \<noteq> 0 + 4"
  by code_simp

text \<open>
  C10. The empty string is contained in every search text. For every post, one empty
  keyword among the business keywords raises the score by exactly 3, and one among the
  enhanced keywords by 3 + 4, whatever the post says; the post whose title and content
  are both empty has the search text of one space and is raised like the others. When
  the resolved keyword list contains the empty string and the threshold is at most 3,
  the filter keeps every post.
\<close>

theorem empty_keyword_raises_every_score:
  "score_post (b1 @ [] # b2 @ ek) ek pd post
     = map_sum id (\<lambda>s. s + 3) (score_post (b1 @ b2 @ ek) ek pd post)
   \<and> score_post (bk @ e1 @ [] # e2) (e1 @ [] # e2) pd post
     = map_sum id (\<lambda>s. s + 3 + 4) (score_post (bk @ e1 @ e2) (e1 @ e2) pd post)
   \<and> score_post (b1 @ [] # b2 @ ek) ek pd [(''title'', PStr []), (''content'', PStr [])]
     = Inr (calc_score (b1 @ b2 @ ek) ek pd '' '' + 3)
   \<and> (rule_based_filter E bm posts pd bt it = (bm', D, Inr out)
        \<and> enhance_query E pd bt = Inr ek'
        \<and> [] \<in> set (snd (get_business_keywords bm (INDUSTRY_MAPPINGS E) bt it) @ ek')
        \<and> threshold E \<le> 3
      \<longrightarrow> mset out = mset D)"
proof -
  have a: "score_post (b1 @ [] # b2 @ ek) ek pd post
     = map_sum id (\<lambda>s. s + 3) (score_post (b1 @ b2 @ ek) ek pd post)"
    by (cases "search_text post") (simp_all add: score_post_def calc_score_count lower_Nil)
  have b: "score_post (bk @ e1 @ [] # e2) (e1 @ [] # e2) pd post
     = map_sum id (\<lambda>s. s + 3 + 4) (score_post (bk @ e1 @ e2) (e1 @ e2) pd post)"
    by (cases "search_text post") (simp_all add: score_post_def calc_score_count lower_Nil)
  have c: "score_post (b1 @ [] # b2 @ ek) ek pd [(''title'', PStr []), (''content'', PStr [])]
     = Inr (calc_score (b1 @ b2 @ ek) ek pd '' '' + 3)"
    by (simp add: score_post_def search_text_def py_get_def calc_score_count lower_Nil)
  have d: "mset out = mset D"
    if "rule_based_filter E bm posts pd bt it = (bm', D, Inr out)"
       "enhance_query E pd bt = Inr ek'"
       "[] \<in> set (snd (get_business_keywords bm (INDUSTRY_MAPPINGS E) bt it) @ ek')"
       "threshold E \<le> 3"
  proof -
    from rule_based_filter_Inr [OF that(1)] that(2) obtain fp where
      fp: "score_loop (threshold E)
             (snd (get_business_keywords bm (INDUSTRY_MAPPINGS E) bt it) @ ek') ek' pd
             posts [] []
           = (D, Inr fp)" "out = sort_by_relevance fp"
      by auto
    from score_loop_all_pass [OF that(3) that(4) fp(1)] fp(2) show ?thesis
      by (simp add: sort_by_relevance_def)
  qed
  from a b c d show ?thesis by blast
qed

theorem empty_keyword_raises_every_score_witness:
  "snd (rule_based_filter empty_keyword_env Map.empty
          [[(''title'', PStr []), (''content'', PStr [])], [(''title'', PStr ''Help'')]]
          [] ''saas'' None)
     = ([[(''title'', PStr []), (''content'', PStr []), (''relevance_score'', PInt 7)],
         [(''title'', PStr ''Help''), (''relevance_score'', PInt 9)]],
        Inr [[(''title'', PStr ''Help''), (''relevance_score'', PInt 9)],
             [(''title'', PStr []), (''content'', PStr []), (''relevance_score'', PInt 7)]])
   \<and> enhance_query empty_keyword_env [] ''saas'' = Inr [[]]
   \<and> [] \<in> set (snd (get_business_keywords Map.empty (INDUSTRY_MAPPINGS empty_keyword_env)
                       ''saas'' None) @ [[]])
   \<and> threshold empty_keyword_env \<le> 3
   \<and> mset [[(''title'', PStr ''Help''), (''relevance_score'', PInt 9)],
            [(''title'', PStr []), (''content'', PStr []), (''relevance_score'', PInt 7)]]
     = mset [[(''title'', PStr []), (''content'', PStr []), (''relevance_score'', PInt 7)],
             [(''title'', PStr ''Help''), (''relevance_score'', PInt 9)]]"
proof -
  let ?run = "rule_based_filter empty_keyword_env Map.empty
          [[(''title'', PStr []), (''content'', PStr [])], [(''title'', PStr ''Help'')]]
          [] ''saas'' None"
  let ?D = "[[(''title'', PStr []), (''content'', PStr []), (''relevance_score'', PInt 7)],
             [(''title'', PStr ''Help''), (''relevance_score'', PInt 9)]]"
  let ?out = "[[(''title'', PStr ''Help''), (''relevance_score'', PInt 9)],
              [(''title'', PStr []), (''content'', PStr []), (''relevance_score'', PInt 7)]]"
  have h1: "snd ?run = (?D, Inr ?out)"
    by code_simp
  then have h1': "?run = (fst ?run, ?D, Inr ?out)"
    by (metis prod.collapse)
  have h2: "enhance_query empty_keyword_env [] ''saas'' = Inr [[]]"
    by code_simp
  have h3: "[] \<in> set (snd (get_business_keywords Map.empty
                              (INDUSTRY_MAPPINGS empty_keyword_env) ''saas'' None) @ [[]])"
    by simp
  have h4: "threshold empty_keyword_env \<le> 3"
    by code_simp
  from empty_keyword_raises_every_score
         [where E = empty_keyword_env and bm = Map.empty and pd = "[]" and bt = "''saas''"
            and it = None and bm' = "fst ?run" and D = ?D and out = ?out and ek' = "[[]]"]
       h1' h2 h3 h4
  have "mset ?out = mset ?D"
    by blast
  with h1 h2 h3 h4 show ?thesis
    by blast
qed

section \<open>Claims about the threshold filter\<close>

lemma example_run:
  "snd (rule_based_filter example_env example_mappings example_posts ''marketing'' ''saas'' None)
     = (example_scored, Inr example_output)"
  by code_simp

lemma example_run_full:
  "rule_based_filter example_env example_mappings example_posts ''marketing'' ''saas'' None
     = (fst (rule_based_filter example_env example_mappings example_posts ''marketing''
               ''saas'' None),
        example_scored, Inr example_output)"
  using example_run by (metis prod.collapse)

text \<open>
  C3. When \<^verbatim>\<open>_rule_based_filter\<close> returns, the posts \<open>D\<close> it has scored are the input
  posts, each with its score written to \<^verbatim>\<open>relevance_score\<close>, and the list it returns
  holds exactly the posts of \<open>D\<close> whose score is at least the threshold: every returned
  post is at or above the threshold, no post of \<open>D\<close> at or above it is missing, and
  each is returned as often as it occurs in \<open>D\<close>.
\<close>

theorem threshold_filter_exact:
  assumes "rule_based_filter E bm posts pd bt it = (bm', D, Inr out)"
  shows "(\<forall>d \<in> set out. threshold E \<le> relevance_score d)
       \<and> (\<forall>d \<in> set D. threshold E \<le> relevance_score d \<longrightarrow> d \<in> set out)
       \<and> mset out = mset (filter (\<lambda>d. threshold E \<le> relevance_score d) D)
       \<and> (\<exists>ek. enhance_query E pd bt = Inr ek
            \<and> list_all2 (\<lambda>p d. \<exists>sc. score_post
                   (snd (get_business_keywords bm (INDUSTRY_MAPPINGS E) bt it) @ ek) ek pd p
                     = Inr sc
                 \<and> d = set_relevance p sc) posts D)"
proof -
  from rule_based_filter_Inr [OF assms] obtain ek fp where
    ek: "enhance_query E pd bt = Inr ek"
    and loop: "score_loop (threshold E)
                (snd (get_business_keywords bm (INDUSTRY_MAPPINGS E) bt it) @ ek) ek pd
                posts [] [] = (D, Inr fp)"
    and out: "out = sort_by_relevance fp"
    by blast
  from score_loop_Inr [OF loop] have
    fp: "fp = filter (\<lambda>d. threshold E \<le> relevance_score d) D"
    and all2: "list_all2 (\<lambda>p d. \<exists>sc. score_post
                   (snd (get_business_keywords bm (INDUSTRY_MAPPINGS E) bt it) @ ek) ek pd p
                     = Inr sc
                 \<and> d = set_relevance p sc) posts D"
    by auto
  have m: "mset out = mset (filter (\<lambda>d. threshold E \<le> relevance_score d) D)"
    using out fp by (simp add: sort_by_relevance_def)
  then have s: "set out = {d \<in> set D. threshold E \<le> relevance_score d}"
    by (metis set_filter set_mset_mset)
  from m s ek all2 show ?thesis
    by blast
qed

theorem threshold_filter_exact_witness:
  "snd (rule_based_filter example_env example_mappings example_posts ''marketing'' ''saas'' None)
     = (example_scored, Inr example_output)
   \<and> list_all (\<lambda>d. threshold example_env \<le> relevance_score d) example_output
   \<and> list_all (\<lambda>d. threshold example_env \<le> relevance_score d \<longrightarrow> d \<in> set example_output)
        example_scored
   \<and> mset example_output
       = mset (filter (\<lambda>d. threshold example_env \<le> relevance_score d) example_scored)"
  using example_run threshold_filter_exact [OF example_run_full]
  unfolding list_all_iff by blast

text \<open>
  C4. The list \<^verbatim>\<open>_rule_based_filter\<close> returns is in descending order of
  \<^verbatim>\<open>relevance_score\<close>, and for every score \<open>k\<close> the returned posts with that score
  are the retained posts with that score in the order of the input: the sort is stable.
  The witness is the example with threshold 5 and the scores 2, 8, 5, 5, 1, whose output
  is the post scoring 8 and then the two posts scoring 5 in their input order.
\<close>

theorem filter_output_sorted_stable:
  assumes "rule_based_filter E bm posts pd bt it = (bm', D, Inr out)"
  shows "sorted_wrt (\<lambda>a b. relevance_score b \<le> relevance_score a) out
       \<and> (\<forall>k. filter (\<lambda>d. relevance_score d = k) out
               = filter (\<lambda>d. relevance_score d = k)
                   (filter (\<lambda>d. threshold E \<le> relevance_score d) D))"
proof -
  from rule_based_filter_Inr [OF assms] obtain ek fp where
    loop: "score_loop (threshold E)
                (snd (get_business_keywords bm (INDUSTRY_MAPPINGS E) bt it) @ ek) ek pd
                posts [] [] = (D, Inr fp)"
    and out: "out = sort_by_relevance fp"
    by blast
  from score_loop_Inr [OF loop] have
    fp: "fp = filter (\<lambda>d. threshold E \<le> relevance_score d) D"
    by auto
  have "sorted (map (\<lambda>x. - relevance_score x) out)"
    unfolding out sort_by_relevance_def by (rule sorted_sort_key)
  then have a: "sorted_wrt (\<lambda>a b. relevance_score b \<le> relevance_score a) out"
    by (simp add: sorted_map)
  have b: "filter (\<lambda>d. relevance_score d = k) out = filter (\<lambda>d. relevance_score d = k) fp"
    for k
    using sort_key_stable [of "\<lambda>x. - relevance_score x" "- k" fp]
    by (simp add: out sort_by_relevance_def)
  from a b fp show ?thesis
    by simp
qed

theorem filter_output_sorted_stable_witness:
  "snd (rule_based_filter example_env example_mappings example_posts ''marketing'' ''saas'' None)
     = (example_scored, Inr example_output)
   \<and> map relevance_score example_scored = [2, 8, 5, 5, 1]
   \<and> threshold example_env = 5
   \<and> map relevance_score example_output = [8, 5, 5]
   \<and> sorted_wrt (\<lambda>a b. relevance_score b \<le> relevance_score a) example_output
   \<and> (\<forall>k. filter (\<lambda>d. relevance_score d = k) example_output
           = filter (\<lambda>d. relevance_score d = k)
               (filter (\<lambda>d. threshold example_env \<le> relevance_score d) example_scored))"
proof -
  have a: "map relevance_score example_scored = [2, 8, 5, 5, 1]"
    by code_simp
  have b: "threshold example_env = 5"
    by code_simp
  have c: "map relevance_score example_output = [8, 5, 5]"
    by code_simp
  show ?thesis
    using example_run a b c filter_output_sorted_stable [OF example_run_full] by blast
qed

section \<open>Claims about the leads\<close>

lemma make_snippet_Inr:
  assumes "make_snippet c = Inr snip"
  shows "\<exists>m n. py_len c = Inr m \<and> py_len snip = Inr n \<and> n \<le> 203
           \<and> (m \<le> 200 \<longrightarrow> snip = c)
           \<and> (200 < m \<longrightarrow> (\<exists>s. c = PStr s \<and> snip = PStr (take 200 s @ ''...'')))"
  using assms by (cases c) (auto simp: make_snippet_def split: if_splits)

lemma create_lead_snippet:
  assumes "create_lead E post bt = Inr l"
  shows "make_snippet (py_get post ''content'' (PStr [])) = Inr (snippet l)"
  using assms by (auto simp: create_lead_def Let_def split: sum.splits if_splits)

lemma create_leads_loop_set:
  "set (create_leads_loop E bt posts leads)
     = set leads \<union> {l. \<exists>post \<in> set posts. create_lead E post bt = Inr l}"
  by (induction posts arbitrary: leads) (auto split: sum.splits)

lemma make_snippet_short:
  "py_len c = Inr m \<Longrightarrow> m \<le> 200 \<Longrightarrow> make_snippet c = Inr c"
  by (simp add: make_snippet_def)

lemma make_snippet_long:
  "200 < length s \<Longrightarrow> make_snippet (PStr s) = Inr (PStr (take 200 s @ ''...''))"
  by (simp add: make_snippet_def)

text \<open>
  C5. Every lead that \<^verbatim>\<open>_create_leads_from_posts\<close> builds comes from a post of the
  input whose content has a length, and its snippet has at most 203 characters: when the
  content has at most 200 characters the snippet is the content itself, and when it has
  more the content is a string and the snippet is its first 200 characters followed by
  \<^verbatim>\<open>...\<close>. And the leads are built: a post of the input whose content has at
  most 200 characters yields the lead with the content for a snippet, and a post whose
  content is a string of more than 200 characters yields the lead with the truncated
  snippet, whenever the constructor accepts that lead.
\<close>

theorem snippet_at_most_203:
  "(let lead_of = (\<lambda>snip.
          \<lparr> title = py_get post ''title'' (PStr []),
             subreddit = py_get post ''subreddit'' (PStr []),
             snippet = snip,
             permalink = py_get post ''permalink'' (PStr []),
             author = py_get post ''author'' (PStr []),
             created_utc = py_get post ''created_utc'' (PInt 0),
             score = py_get post ''score'' (PInt 0),
             matched_keywords = [],
             ai_relevance_score = py_get post ''relevance_score'' (PInt 0),
             urgency_level = ''Medium'',
             business_context = bt,
             problem_category = ''General'',
             ai_summary = [] \<rparr>);
        content = py_get post ''content'' (PStr [])
    in (\<forall>l \<in> set (create_leads_from_posts E posts pd bt).
          \<exists>p \<in> set posts. \<exists>m n. create_lead E p bt = Inr l
             \<and> py_len (py_get p ''content'' (PStr [])) = Inr m
             \<and> py_len (snippet l) = Inr n \<and> n \<le> 203
             \<and> (m \<le> 200 \<longrightarrow> snippet l = py_get p ''content'' (PStr []))
             \<and> (200 < m \<longrightarrow> (\<exists>s. py_get p ''content'' (PStr []) = PStr s
                    \<and> snippet l = PStr (take 200 s @ ''...''))))
     \<and> (post \<in> set posts \<and> py_len content = Inr m \<and> m \<le> 200 \<and> lead_valid E (lead_of content)
          \<longrightarrow> create_lead E post bt = Inr (lead_of content)
              \<and> lead_of content \<in> set (create_leads_from_posts E posts pd bt))
     \<and> (post \<in> set posts \<and> content = PStr s \<and> 200 < length s
            \<and> lead_valid E (lead_of (PStr (take 200 s @ ''...'')))
          \<longrightarrow> create_lead E post bt = Inr (lead_of (PStr (take 200 s @ ''...'')))
              \<and> lead_of (PStr (take 200 s @ ''...''))
                  \<in> set (create_leads_from_posts E posts pd bt)))"
proof -
  have old: "\<exists>p \<in> set posts. \<exists>m n. create_lead E p bt = Inr l
             \<and> py_len (py_get p ''content'' (PStr [])) = Inr m
             \<and> py_len (snippet l) = Inr n \<and> n \<le> 203
             \<and> (m \<le> 200 \<longrightarrow> snippet l = py_get p ''content'' (PStr []))
             \<and> (200 < m \<longrightarrow> (\<exists>s. py_get p ''content'' (PStr []) = PStr s
                    \<and> snippet l = PStr (take 200 s @ ''...'')))"
    if "l \<in> set (create_leads_from_posts E posts pd bt)" for l
  proof -
    from that obtain p where p: "p \<in> set posts" "create_lead E p bt = Inr l"
      by (auto simp: create_leads_from_posts_def create_leads_loop_set)
    from make_snippet_Inr [OF create_lead_snippet [OF p(2)]] p show ?thesis
      by blast
  qed
  have mem: "l \<in> set (create_leads_from_posts E posts pd bt)"
    if "post \<in> set posts" "create_lead E post bt = Inr l" for l
    using that by (auto simp: create_leads_from_posts_def create_leads_loop_set)
  show ?thesis
    unfolding Let_def
  proof (intro conjI ballI impI)
    fix l
    assume "l \<in> set (create_leads_from_posts E posts pd bt)"
    then show "\<exists>p \<in> set posts. \<exists>m n. create_lead E p bt = Inr l
             \<and> py_len (py_get p ''content'' (PStr [])) = Inr m
             \<and> py_len (snippet l) = Inr n \<and> n \<le> 203
             \<and> (m \<le> 200 \<longrightarrow> snippet l = py_get p ''content'' (PStr []))
             \<and> (200 < m \<longrightarrow> (\<exists>s. py_get p ''content'' (PStr []) = PStr s
                    \<and> snippet l = PStr (take 200 s @ ''...'')))"
      by (rule old)
  qed (auto simp: create_lead_def make_snippet_short make_snippet_long intro!: mem)
qed


theorem snippet_at_most_203_witness:
  "example_short_post \<in> set [example_short_post, example_long_post]
   \<and> py_len (py_get example_short_post ''content'' (PStr [])) = Inr 5
   \<and> lead_valid example_env example_short_lead
   \<and> create_lead example_env example_short_post ''saas'' = Inr example_short_lead
   \<and> example_short_lead
        \<in> set (create_leads_from_posts example_env [example_short_post, example_long_post] []
                 ''saas'')
   \<and> snippet example_short_lead = py_get example_short_post ''content'' (PStr [])
   \<and> example_long_post \<in> set [example_short_post, example_long_post]
   \<and> py_get example_long_post ''content'' (PStr []) = PStr (replicate 201 (CHR ''a''))
   \<and> lead_valid example_env example_long_lead
   \<and> create_lead example_env example_long_post ''saas'' = Inr example_long_lead
   \<and> example_long_lead
        \<in> set (create_leads_from_posts example_env [example_short_post, example_long_post] []
                 ''saas'')
   \<and> snippet example_long_lead = PStr (take 200 (replicate 201 (CHR ''a'')) @ ''...'')
   \<and> py_len (snippet example_long_lead) = Inr 203"
proof -
  let ?posts = "[example_short_post, example_long_post]"
  let ?s = "replicate 201 (CHR ''a'')"
  have s1: "example_short_post \<in> set ?posts"
    by simp
  have s2: "py_len (py_get example_short_post ''content'' (PStr [])) = Inr 5"
    by code_simp
  have s3: "\<lparr> title = py_get example_short_post ''title'' (PStr []),
             subreddit = py_get example_short_post ''subreddit'' (PStr []),
             snippet = py_get example_short_post ''content'' (PStr []),
             permalink = py_get example_short_post ''permalink'' (PStr []),
             author = py_get example_short_post ''author'' (PStr []),
             created_utc = py_get example_short_post ''created_utc'' (PInt 0),
             score = py_get example_short_post ''score'' (PInt 0),
             matched_keywords = [],
             ai_relevance_score = py_get example_short_post ''relevance_score'' (PInt 0),
             urgency_level = ''Medium'',
             business_context = ''saas'',
             problem_category = ''General'',
             ai_summary = [] \<rparr> = example_short_lead"
    by code_simp
  have s4: "lead_valid example_env example_short_lead"
    by code_simp
  have s5: "snippet example_short_lead = py_get example_short_post ''content'' (PStr [])"
    by code_simp
  have l1: "example_long_post \<in> set ?posts"
    by simp
  have l2: "py_get example_long_post ''content'' (PStr []) = PStr ?s"
    by code_simp
  have l3: "\<lparr> title = py_get example_long_post ''title'' (PStr []),
             subreddit = py_get example_long_post ''subreddit'' (PStr []),
             snippet = PStr (take 200 ?s @ ''...''),
             permalink = py_get example_long_post ''permalink'' (PStr []),
             author = py_get example_long_post ''author'' (PStr []),
             created_utc = py_get example_long_post ''created_utc'' (PInt 0),
             score = py_get example_long_post ''score'' (PInt 0),
             matched_keywords = [],
             ai_relevance_score = py_get example_long_post ''relevance_score'' (PInt 0),
             urgency_level = ''Medium'',
             business_context = ''saas'',
             problem_category = ''General'',
             ai_summary = [] \<rparr> = example_long_lead"
    by code_simp
  have l4: "lead_valid example_env example_long_lead"
    by code_simp
  have l5: "snippet example_long_lead = PStr (take 200 ?s @ ''...'')"
    by code_simp
  have l6: "py_len (snippet example_long_lead) = Inr 203"
    by code_simp
  have l7: "200 < length ?s"
    by simp
  have short: "create_lead example_env example_short_post ''saas'' = Inr example_short_lead
         \<and> example_short_lead \<in> set (create_leads_from_posts example_env ?posts [] ''saas'')"
    using snippet_at_most_203
            [where E = example_env and posts = ?posts and pd = "[]" and bt = "''saas''"
               and post = example_short_post and m = 5, unfolded Let_def]
          s1 s2 s3 s4
    by simp
  have long: "create_lead example_env example_long_post ''saas'' = Inr example_long_lead
         \<and> example_long_lead \<in> set (create_leads_from_posts example_env ?posts [] ''saas'')"
    using snippet_at_most_203
            [where E = example_env and posts = ?posts and pd = "[]" and bt = "''saas''"
               and post = example_long_post and s = ?s, unfolded Let_def]
          l1 l2 l3 l4 l7
    by simp
  from s1 s2 s4 s5 l1 l2 l4 l5 l6 short long show ?thesis
    by blast
qed

section \<open>Claims about the summaries\<close>

lemma summary_loop_ok:
  "list_all (\<lambda>l. \<not> isl (f l pd)) leads \<Longrightarrow>
     summary_loop f pd leads seen
       = (seen @ map (\<lambda>l. l\<lparr>ai_summary := projr (f l pd)\<rparr>) leads, None)"
proof (induction leads arbitrary: seen)
  case Nil
  then show ?case by simp
next
  case (Cons l ls)
  then obtain s where "f l pd = Inr s" by (cases "f l pd") simp_all
  then show ?case using Cons by simp
qed

lemma simple_summary_PStr:
  "title l = PStr t \<Longrightarrow>
     simple_summary l pd
       = Inr (let matching_words = filter (\<lambda>w. w \<in> set (py_split (lower t))) (py_split (lower pd))
              in if matching_words \<noteq> []
                 then ''Post about '' @ py_join '', '' matching_words @ '' - '' @ take 80 t @ ''...''
                 else ''Post about '' @ lower pd @ '' - '' @ take 80 t @ ''...'')"
  by (simp add: simple_summary_def Let_def)

text \<open>
  C6 (as amended). When every title is a string, \<^verbatim>\<open>_add_simple_summaries\<close> returns
  the leads with \<^verbatim>\<open>ai_summary\<close> set, for a lead with title \<open>t\<close>, to
  \<^verbatim>\<open>Post about {matches} - {t[:80]}...\<close>, where the matches are the words of the
  lowercased problem description that occur among the words of the lowercased title,
  joined with a comma and a space, in the order of the problem description and each as
  often as the problem description has it; with no match the lowercased problem
  description stands in their place.
\<close>

theorem summary_from_matching_words:
  assumes "map title leads = map PStr ts"
  shows "add_simple_summaries leads pd
           = Inr (map2 (\<lambda>l t.
                    let matching_words =
                          filter (\<lambda>w. w \<in> set (py_split (lower t))) (py_split (lower pd))
                    in l\<lparr>ai_summary :=
                           if matching_words \<noteq> []
                           then ''Post about '' @ py_join '', '' matching_words @ '' - ''
                                  @ take 80 t @ ''...''
                           else ''Post about '' @ lower pd @ '' - '' @ take 80 t @ ''...''\<rparr>)
                    leads ts)
       \<and> (\<forall>t w. w \<in> set (py_split (lower t)) \<longrightarrow>
             count_list (filter (\<lambda>w. w \<in> set (py_split (lower t))) (py_split (lower pd))) w
               = count_list (py_split (lower pd)) w)"
proof -
  from assms have len: "length leads = length ts"
    by (metis length_map)
  have t: "title (leads ! i) = PStr (ts ! i)" if "i < length ts" for i
    using assms that len by (metis nth_map)
  have ok: "list_all (\<lambda>l. \<not> isl (simple_summary l pd)) leads"
    unfolding list_all_length using t len by (simp add: simple_summary_PStr)
  have "map (\<lambda>l. l\<lparr>ai_summary := projr (simple_summary l pd)\<rparr>) leads
          = map2 (\<lambda>l t.
                    let matching_words =
                          filter (\<lambda>w. w \<in> set (py_split (lower t))) (py_split (lower pd))
                    in l\<lparr>ai_summary :=
                           if matching_words \<noteq> []
                           then ''Post about '' @ py_join '', '' matching_words @ '' - ''
                                  @ take 80 t @ ''...''
                           else ''Post about '' @ lower pd @ '' - '' @ take 80 t @ ''...''\<rparr>)
                    leads ts"
    by (rule nth_equalityI) (use len t in \<open>simp_all add: simple_summary_PStr Let_def\<close>)
  then have a: "add_simple_summaries leads pd
           = Inr (map2 (\<lambda>l t.
                    let matching_words =
                          filter (\<lambda>w. w \<in> set (py_split (lower t))) (py_split (lower pd))
                    in l\<lparr>ai_summary :=
                           if matching_words \<noteq> []
                           then ''Post about '' @ py_join '', '' matching_words @ '' - ''
                                  @ take 80 t @ ''...''
                           else ''Post about '' @ lower pd @ '' - '' @ take 80 t @ ''...''\<rparr>)
                    leads ts)"
    by (simp add: add_simple_summaries_def summary_loop_ok [where f = simple_summary and pd = pd, OF ok])
  have b: "count_list (filter P xs) w = count_list xs w" if "P w" for P and xs :: "string list" and w
    using that by (induction xs) auto
  from a b show ?thesis by simp
qed

theorem summary_from_matching_words_witness:
  "map title (create_leads_from_posts example_env example_client_posts [] ''saas'')
     = map PStr [''How do I get my first client'']
   \<and> map ai_summary (projr (add_simple_summaries
         (create_leads_from_posts example_env example_client_posts [] ''saas'')
         ''getting first client fast''))
     = [''Post about first, client - How do I get my first client...'']"
proof -
  let ?L = "create_leads_from_posts example_env example_client_posts [] ''saas''"
  have h: "map title ?L = map PStr [''How do I get my first client'']"
    by code_simp
  from summary_from_matching_words [OF h, of "''getting first client fast''"]
  have e: "add_simple_summaries ?L ''getting first client fast''
             = Inr (map2 (\<lambda>l t.
                    let matching_words =
                          filter (\<lambda>w. w \<in> set (py_split (lower t)))
                            (py_split (lower ''getting first client fast''))
                    in l\<lparr>ai_summary :=
                           if matching_words \<noteq> []
                           then ''Post about '' @ py_join '', '' matching_words @ '' - ''
                                  @ take 80 t @ ''...''
                           else ''Post about '' @ lower ''getting first client fast'' @ '' - ''
                                  @ take 80 t @ ''...''\<rparr>)
                    ?L [''How do I get my first client''])"
    by blast
  have v: "map ai_summary (map2 (\<lambda>l t.
                    let matching_words =
                          filter (\<lambda>w. w \<in> set (py_split (lower t)))
                            (py_split (lower ''getting first client fast''))
                    in l\<lparr>ai_summary :=
                           if matching_words \<noteq> []
                           then ''Post about '' @ py_join '', '' matching_words @ '' - ''
                                  @ take 80 t @ ''...''
                           else ''Post about '' @ lower ''getting first client fast'' @ '' - ''
                                  @ take 80 t @ ''...''\<rparr>)
                    ?L [''How do I get my first client''])
             = [''Post about first, client - How do I get my first client...'']"
    by code_simp
  from h e v show ?thesis
    by simp
qed

text \<open>
  C6 as stated fails: the matches are not a set. For the title \<^verbatim>\<open>first\<close> and the
  problem description \<^verbatim>\<open>first first\<close> the pipeline writes the word twice.
\<close>

theorem summary_matches_once_counterexample:
  "map ai_summary (fst (snd (snd (filter_posts
       \<lparr>threshold = 0, INDUSTRY_MAPPINGS = Map.empty,
          enhance_query = (\<lambda>pd bt. Inr []), lead_valid = (\<lambda>l. True)\<rparr>
       \<lparr>last_metrics = None, BUSINESS_MAPPINGS = Map.empty\<rparr>
       [[(''title'', PStr ''first'')]] ''first first'' ''saas'' None))))
     = [''Post about first, first - first...'']
   \<and> ''Post about first, first - first...''
       \<noteq> ''Post about '' @ py_join '', '' (remdups [''first'', ''first'']) @ '' - ''
           @ take 80 ''first'' @ ''...''"
  by code_simp

text \<open>
  The leads that \<^verbatim>\<open>filter_posts\<close> passes to \<^verbatim>\<open>_add_simple_summaries\<close> are
  built from the posts \<^verbatim>\<open>_rule_based_filter\<close> returns. Each of these posts has been
  scored, so its title is a string (lines 113 and 116 raise otherwise), and so is the
  title of the lead. For such leads the loop of the \<^verbatim>\<open>try\<close> block of
  \<^verbatim>\<open>_add_simple_summaries\<close> runs to its end: the handler of lines 256 to 261 is
  not entered.
\<close>

lemma py_get_set_relevance:
  "k \<noteq> ''relevance_score'' \<Longrightarrow> py_get (set_relevance p sc) k d = py_get p k d"
  by (simp add: py_get_def set_relevance_def update_conv')

lemma search_text_title:
  assumes "search_text p = Inr tx"
  shows "\<exists>t. py_get p ''title'' (PStr []) = PStr t"
  using assms by (cases "py_get p ''title'' (PStr [])") (simp_all add: search_text_def)

lemma filtered_titles_are_strings:
  assumes "rule_based_filter E bm posts pd bt it = (bm', D, Inr out)"
      and "d \<in> set out"
  shows "\<exists>t. py_get d ''title'' (PStr []) = PStr t"
proof -
  from rule_based_filter_Inr [OF assms(1)] obtain ek fp where
    loop: "score_loop (threshold E)
             (snd (get_business_keywords bm (INDUSTRY_MAPPINGS E) bt it) @ ek) ek pd
             posts [] [] = (D, Inr fp)"
    and out: "out = sort_by_relevance fp"
    by blast
  from score_loop_Inr [OF loop] have
    fp: "fp = filter (\<lambda>d. threshold E \<le> relevance_score d) D"
    and all2: "list_all2 (\<lambda>p d. \<exists>sc. score_post
                   (snd (get_business_keywords bm (INDUSTRY_MAPPINGS E) bt it) @ ek) ek pd p
                     = Inr sc
                 \<and> d = set_relevance p sc) posts D"
    by auto
  from assms(2) out fp have "d \<in> set D"
    by (simp add: sort_by_relevance_def)
  with all2 obtain p sc where
    p: "score_post (snd (get_business_keywords bm (INDUSTRY_MAPPINGS E) bt it) @ ek) ek pd p
          = Inr sc" "d = set_relevance p sc"
    by (auto simp: list_all2_conv_all_nth in_set_conv_nth)
  from p(1) obtain tx where "search_text p = Inr tx"
    by (cases "search_text p") (simp_all add: score_post_def)
  from search_text_title [OF this] p(2) show ?thesis
    by (simp add: py_get_set_relevance)
qed

lemma pipeline_leads_have_string_titles:
  assumes "rule_based_filter E bm posts pd bt it = (bm', D, Inr out)"
      and "l \<in> set (create_leads_from_posts E out pd bt)"
  shows "\<exists>t. title l = PStr t"
proof -
  from assms(2) obtain d where d: "d \<in> set out" "create_lead E d bt = Inr l"
    by (auto simp: create_leads_from_posts_def create_leads_loop_set)
  from d(2) have "title l = py_get d ''title'' (PStr [])"
    by (auto simp: create_lead_def Let_def split: sum.splits if_splits)
  with filtered_titles_are_strings [OF assms(1) d(1)] show ?thesis
    by simp
qed

lemma pipeline_summaries_never_raise:
  assumes "rule_based_filter E bm posts pd bt it = (bm', D, Inr out)"
  shows "add_simple_summaries (create_leads_from_posts E out pd bt) pd
           = Inr (map (\<lambda>l. l\<lparr>ai_summary := projr (simple_summary l pd)\<rparr>)
                    (create_leads_from_posts E out pd bt))"
proof -
  have "list_all (\<lambda>l. \<not> isl (simple_summary l pd)) (create_leads_from_posts E out pd bt)"
    unfolding list_all_iff
  proof
    fix l
    assume "l \<in> set (create_leads_from_posts E out pd bt)"
    from pipeline_leads_have_string_titles [OF assms this] obtain t where "title l = PStr t"
      by blast
    then show "\<not> isl (simple_summary l pd)"
      by (simp add: simple_summary_PStr)
  qed
  from summary_loop_ok [where f = simple_summary and pd = pd, OF this] show ?thesis
    by (simp add: add_simple_summaries_def)
qed

section \<open>Claims about the pipeline\<close>

lemma initial_metrics_nonempty: "metrics_or_empty (Some (initial_metrics n)) = initial_metrics n"
  by (simp add: metrics_or_empty_def initial_metrics_def)

text \<open>
  C8. Whatever raises inside the \<^verbatim>\<open>try\<close> block of \<^verbatim>\<open>filter_posts\<close>, be it in
  \<^verbatim>\<open>_rule_based_filter\<close> (the enhancer, a post whose title or content is not a
  string) or in \<^verbatim>\<open>_add_simple_summaries\<close>, the method returns the empty lead list
  and the metrics recorded at the start of the call, which are also the metrics it
  leaves in \<^verbatim>\<open>_last_metrics\<close>. The metrics are never empty at that point, so the
  alternative \<^verbatim>\<open>{}\<close> is not taken. The method is a total function of its
  arguments: no exception leaves it.
\<close>

theorem failure_gives_empty_leads:
  assumes "rule_based_filter E (BUSINESS_MAPPINGS st) posts pd bt it = (bm', posts', r)"
      and "(\<exists>e. r = Inl e)
         \<or> (\<exists>fp e. r = Inr fp \<and> create_leads_from_posts E fp pd bt \<noteq> []
               \<and> add_simple_summaries (create_leads_from_posts E fp pd bt) pd = Inl e)"
  shows "filter_posts E st posts pd bt it
           = (\<lparr>last_metrics = Some (initial_metrics (length posts)), BUSINESS_MAPPINGS = bm'\<rparr>,
              posts', ([], initial_metrics (length posts)))"
  using assms
  by (auto simp: filter_posts_def Let_def initial_metrics_nonempty)

theorem failure_gives_empty_leads_witness:
  "snd (rule_based_filter failing_env (BUSINESS_MAPPINGS initial_state) example_posts
          ''marketing'' ''saas'' None)
     = (example_posts, Inl ExternalError)
   \<and> snd (filter_posts failing_env initial_state example_posts ''marketing'' ''saas'' None)
     = (example_posts, [], initial_metrics 5)
   \<and> last_metrics (fst (filter_posts failing_env initial_state example_posts ''marketing''
                           ''saas'' None))
     = Some (initial_metrics 5)"
proof -
  let ?R = "rule_based_filter failing_env (BUSINESS_MAPPINGS initial_state) example_posts
              ''marketing'' ''saas'' None"
  have h: "snd ?R = (example_posts, Inl ExternalError)"
    by code_simp
  then have h': "?R = (fst ?R, example_posts, Inl ExternalError)"
    by (metis prod.collapse)
  have l: "length example_posts = 5"
    by code_simp
  from failure_gives_empty_leads [OF h'] h l show ?thesis
    by simp
qed

text \<open>
  C9 (as amended). Called with no posts, \<^verbatim>\<open>filter_posts\<close> returns no leads and
  metrics whose \<^verbatim>\<open>posts_analyzed\<close> and \<^verbatim>\<open>posts_filtered\<close> are 0; the count of
  leads \<^verbatim>\<open>results_returned\<close> is 0 when the enhancer returns, and is absent from the
  metrics when the enhancer raises. No exception leaves the method.
\<close>

theorem empty_posts_result:
  "fst (snd (filter_posts E st [] pd bt it)) = []
   \<and> fst (snd (snd (filter_posts E st [] pd bt it))) = []
   \<and> map_of (snd (snd (snd (filter_posts E st [] pd bt it)))) ''posts_analyzed''
       = Some (MInt 0)
   \<and> map_of (snd (snd (snd (filter_posts E st [] pd bt it)))) ''posts_filtered''
       = Some (MInt 0)
   \<and> map_of (snd (snd (snd (filter_posts E st [] pd bt it)))) ''results_returned''
       = (if isl (enhance_query E pd bt) then None else Some (MInt 0))
   \<and> get_last_metrics (fst (filter_posts E st [] pd bt it))
       = Some (snd (snd (snd (filter_posts E st [] pd bt it))))"
proof (cases "enhance_query E pd bt")
  case (Inl e)
  then show ?thesis
    by (simp add: filter_posts_def rule_based_filter_def Let_def get_last_metrics_def
          initial_metrics_nonempty split: prod.splits)
       (simp add: initial_metrics_def)
next
  case (Inr ek)
  then show ?thesis
    by (simp add: filter_posts_def rule_based_filter_def Let_def get_last_metrics_def
          log_first_posts_def sort_by_relevance_def create_leads_from_posts_def
          split: prod.splits)
       (simp add: initial_metrics_def)
qed


theorem empty_posts_result_witness:
  "isl (enhance_query example_env ''marketing'' ''saas'') = False
   \<and> fst (snd (filter_posts example_env initial_state [] ''marketing'' ''saas'' None)) = []
   \<and> fst (snd (snd (filter_posts example_env initial_state [] ''marketing'' ''saas'' None))) = []
   \<and> map_of (snd (snd (snd (filter_posts example_env initial_state [] ''marketing'' ''saas''
                               None)))) ''posts_analyzed''
       = Some (MInt 0)
   \<and> map_of (snd (snd (snd (filter_posts example_env initial_state [] ''marketing'' ''saas''
                               None)))) ''posts_filtered''
       = Some (MInt 0)
   \<and> map_of (snd (snd (snd (filter_posts example_env initial_state [] ''marketing'' ''saas''
                               None)))) ''results_returned''
       = Some (MInt 0)"
proof -
  have h: "isl (enhance_query example_env ''marketing'' ''saas'') = False"
    by code_simp
  from empty_posts_result [of example_env initial_state "''marketing''" "''saas''" None] h
  show ?thesis
    by simp
qed

text \<open>
  C9 as stated fails: when the enhancer raises, the metrics returned for no posts have
  no \<^verbatim>\<open>results_returned\<close> entry.
\<close>

theorem empty_posts_no_lead_count_counterexample:
  "snd (filter_posts failing_env initial_state [] ''marketing'' ''saas'' None)
     = ([], [], initial_metrics 0)
   \<and> map_of (snd (snd (snd (filter_posts failing_env initial_state [] ''marketing'' ''saas''
                               None)))) ''results_returned''
       = None
   \<and> map_of (snd (snd (snd (filter_posts failing_env initial_state [] ''marketing'' ''saas''
                               None)))) ''results_returned''
       \<noteq> Some (MInt 0)"
  by code_simp

text \<open>
  C2: the code at the failing input. \<^verbatim>\<open>business_keywords.extend(industry_keywords)\<close>
  of line 88 writes to the list stored in \<^verbatim>\<open>BUSINESS_MAPPINGS\<close>. After the first
  call the table holds the industry keyword, after the second it holds it twice; the
  post scores 3 and yields no lead in the first call, and scores 6 and yields a lead in
  the second.
\<close>

theorem second_run_differs:
  "BUSINESS_MAPPINGS repeat_state ''saas'' = Some [''software'']
   \<and> BUSINESS_MAPPINGS (fst first_run) ''saas'' = Some [''software'', ''startup'']
   \<and> BUSINESS_MAPPINGS (fst second_run) ''saas'' = Some [''software'', ''startup'', ''startup'']
   \<and> map relevance_score (fst (snd first_run)) = [3]
   \<and> fst (snd (snd first_run)) = []
   \<and> map relevance_score (fst (snd second_run)) = [6]
   \<and> map ai_relevance_score (fst (snd (snd second_run))) = [PInt 6]"
  by code_simp

end
